theory Spec2Isabelle
  imports Complex_Main "HOL-Library.Word"
begin

unbundle bit_operations_syntax

section \<open>The motor packet\<close>

text \<open>
  \<^verbatim>\<open>struct MotorPacketBits { unsigned int motor_id : 2;
                            unsigned int negative : 1;
                            unsigned int speed : 5; };
  union MotorPacket { struct MotorPacketBits b; unsigned char as_byte; };\<close>

  The firmware runs on an mbed, a little-endian ARM board. Its ABI allocates
  bit-fields in declaration order starting at the least significant bit of the
  storage unit, and \<open>as_byte\<close> overlays the least significant byte of that
  unit. So \<open>motor_id\<close> is bits 0 and 1 of the byte, \<open>negative\<close> is bit 2 and
  \<open>speed\<close> is bits 3 to 7: the first two bits, the third bit and the last five
  bits of the comment above the struct, and the layout the specification
  gives for the wire (\<open>motor_id\<close> in the lowest 2 bits, \<open>negative\<close> the next
  bit, \<open>speed\<close> the top 5 bits). The main loop only ever writes \<open>as_byte\<close> and
  only ever reads the bit-fields, so the union is modelled by its byte, and
  the struct is the view of that byte through the bit-fields.
\<close>

record MotorPacketBits =
  motor_id :: nat
  negative :: nat
  speed :: nat

record MotorPacket =
  as_byte :: "8 word"

text \<open>A bit-field of the given width at the given offset of the storage byte.\<close>

definition bit_field :: "nat \<Rightarrow> nat \<Rightarrow> 8 word \<Rightarrow> nat" where
  "bit_field offset width w = unat (take_bit width (drop_bit offset w))"

text \<open>\<^verbatim>\<open>packet.b\<close>: the bit-fields read through the union.\<close>

definition MotorPacket_b :: "MotorPacket \<Rightarrow> MotorPacketBits" where
  "MotorPacket_b packet =
     \<lparr>motor_id = bit_field 0 2 (as_byte packet),
      negative = bit_field 2 1 (as_byte packet),
      speed = bit_field 3 5 (as_byte packet)\<rparr>"

text \<open>
  \<^verbatim>\<open>packet.as_byte = rpi.getc();\<close> followed by reads of \<^verbatim>\<open>packet.b\<close>: decoding a
  received byte.
\<close>

definition decode :: "8 word \<Rightarrow> MotorPacketBits" where
  "decode byte = MotorPacket_b \<lparr>as_byte = byte\<rparr>"

text \<open>
  The test of the main loop, \<^verbatim>\<open>packet.b.negative and !packet.b.speed\<close>: the
  packet is a special request rather than a motor command.
\<close>

definition is_extension :: "MotorPacketBits \<Rightarrow> bool" where
  "is_extension b = (negative b \<noteq> 0 \<and> speed b = 0)"

text \<open>
  Modelled from the spec: the sender's packing of a command byte, which is code
  of the host and not of the firmware. The fields are packed into a single
  byte with \<open>motor_id\<close> occupying the lowest 2 bits, \<open>negative\<close> the next bit and
  \<open>speed\<close> the top 5 bits.
\<close>

definition encode :: "MotorPacketBits \<Rightarrow> 8 word" where
  "encode b =
     word_of_nat (motor_id b) OR push_bit 2 (word_of_nat (negative b)) OR
     push_bit 3 (word_of_nat (speed b))"

section \<open>The hardware capabilities\<close>

text \<open>
  The pins the program binds. \<^verbatim>\<open>PinName\<close> comes from \<^verbatim>\<open>mbed.h\<close>; only the pins
  named in \<^verbatim>\<open>main.cc\<close> are listed.
\<close>

datatype PinName =
  p11 | p12 | p13 | p14 | p15 | p16 | p17 | p18 | p19 | p20 | p21 | p22 | p23 | p24

text \<open>
  \<^verbatim>\<open>PwmOut\<close> and \<^verbatim>\<open>DigitalOut\<close> are classes of \<^verbatim>\<open>mbed.h\<close>. A \<^verbatim>\<open>PwmOut\<close> holds a duty
  cycle and a period in microseconds, a \<^verbatim>\<open>DigitalOut\<close> a binary level. The
  \<^verbatim>\<open>float\<close> values of the program are modelled by the real numbers they stand
  for: \<^verbatim>\<open>drive\<close> only compares its argument with zero and takes its absolute
  value, and both operations are exact.
\<close>

record PwmOut =
  pwm_pin :: PinName
  duty :: real
  period_us :: int

record DigitalOut =
  out_pin :: PinName
  level :: int

text \<open>
  Modelled from the spec: the operations of \<^verbatim>\<open>PwmOut\<close> and \<^verbatim>\<open>DigitalOut\<close>, whose
  code is in the mbed library. The PWM capability accepts a duty-cycle
  fraction, and a fraction outside of 0 to 1 is clamped; the digital
  capability accepts a binary level and gives it back when read. The values
  a new \<^verbatim>\<open>PwmOut\<close> and a new \<^verbatim>\<open>DigitalOut\<close> start with (here the library's period
  of 20 ms, no duty and the low level) play no part: the constructor of
  \<^verbatim>\<open>Motor\<close> overwrites all three, see \<open>Motor_init_overwrites\<close> below.
\<close>

definition PwmOut_new :: "PinName \<Rightarrow> PwmOut" where
  "PwmOut_new pin = \<lparr>pwm_pin = pin, duty = 0, period_us = 20000\<rparr>"

definition PwmOut_write :: "real \<Rightarrow> PwmOut \<Rightarrow> PwmOut" where
  "PwmOut_write v p = p\<lparr>duty := (if v < 0 then 0 else if 1 < v then 1 else v)\<rparr>"

definition PwmOut_period_us :: "int \<Rightarrow> PwmOut \<Rightarrow> PwmOut" where
  "PwmOut_period_us us p = p\<lparr>period_us := us\<rparr>"

definition DigitalOut_new :: "PinName \<Rightarrow> DigitalOut" where
  "DigitalOut_new pin = \<lparr>out_pin = pin, level = 0\<rparr>"

definition DigitalOut_write :: "int \<Rightarrow> DigitalOut \<Rightarrow> DigitalOut" where
  "DigitalOut_write v d = d\<lparr>level := (if v = 0 then 0 else 1)\<rparr>"

definition DigitalOut_read :: "DigitalOut \<Rightarrow> int" where
  "DigitalOut_read d = level d"

section \<open>The motor driver\<close>

text \<open>
  \<^verbatim>\<open>class Motor { ... PwmOut pwm; DigitalOut dir; };\<close>
  The comment on the constructor's \<^verbatim>\<open>pin_dir\<close> fixes the meaning of the two
  levels of the direction pin: \<^verbatim>\<open>HI is forward, LO is reverse\<close>.
\<close>

record Motor =
  pwm :: PwmOut
  dir :: DigitalOut

definition forward_level :: int where
  "forward_level = 1"

definition reverse_level :: int where
  "reverse_level = 0"

text \<open>
  The body of the constructor, run on the members as their own constructors
  left them:
  \<^verbatim>\<open>pwm = dir = 0;  pwm.period_us(40);\<close>
  The chained assignment writes 0 to \<^verbatim>\<open>dir\<close> and then writes to \<^verbatim>\<open>pwm\<close> the value
  read back from \<^verbatim>\<open>dir\<close>.
\<close>

definition Motor_init :: "Motor \<Rightarrow> Motor" where
  "Motor_init m =
     (let d = DigitalOut_write 0 (dir m);
          p = PwmOut_write (real_of_int (DigitalOut_read d)) (pwm m);
          p' = PwmOut_period_us 40 p
      in \<lparr>pwm = p', dir = d\<rparr>)"

text \<open>\<^verbatim>\<open>Motor(PinName pin_pwm, PinName pin_dir) : pwm(pin_pwm), dir(pin_dir) { ... }\<close>\<close>

definition Motor_new :: "PinName \<Rightarrow> PinName \<Rightarrow> Motor" where
  "Motor_new pin_pwm pin_dir =
     Motor_init \<lparr>pwm = PwmOut_new pin_pwm, dir = DigitalOut_new pin_dir\<rparr>"

text \<open>
  \<^verbatim>\<open>void drive(float speed) { dir = speed < 0 ? 0 : 1;  pwm = abs(speed); }\<close>
  The absolute value is taken at type \<^verbatim>\<open>float\<close>, as the example in the comment
  on the class requires: \<^verbatim>\<open>motor.drive(0.5)\<close> runs the motor at 50% speed.
\<close>

definition drive :: "real \<Rightarrow> Motor \<Rightarrow> Motor" where
  "drive v m =
     (let d = DigitalOut_write (if v < 0 then 0 else 1) (dir m);
          p = PwmOut_write \<bar>v\<bar> (pwm m)
      in m\<lparr>dir := d, pwm := p\<rparr>)"

section \<open>The state of the main loop\<close>

text \<open>
  The local variables of \<^verbatim>\<open>main\<close> that live across iterations, the characters
  written to the serial link so far, and a log of the calls of \<^verbatim>\<open>drive\<close> (motor
  index and speed), latest last. The variable \<^verbatim>\<open>sign\<close> is written before it is
  read in the only branch that uses it, so it is local to that branch.
\<close>

record state =
  motors :: "Motor list"
  pots :: "PinName list"
  n_adc :: int
  adc_results :: "16 word list"
  packet :: MotorPacket
  rpi_tx :: string
  drive_calls :: "(nat \<times> real) list"

text \<open>
  The state on entry to the loop: the four motors and the six analog inputs
  in the order of the program, \<^verbatim>\<open>int n_adc = 2;\<close>, and the array
  \<^verbatim>\<open>uint16_t adc_results[n_adc]\<close> with every entry set to zero. The packet is not
  initialised by the program, so its first value is a parameter.
\<close>

definition main_init :: "MotorPacket \<Rightarrow> state" where
  "main_init packet0 =
     (let n = 2 in
      \<lparr>motors = [Motor_new p21 p11, Motor_new p22 p12, Motor_new p23 p13, Motor_new p24 p14],
       pots = [p15, p16, p17, p18, p19, p20],
       n_adc = n,
       adc_results = replicate (nat n) 0,
       packet = packet0,
       rpi_tx = [],
       drive_calls = []\<rparr>)"

text \<open>
  The arrays have their declared sizes, and the number of channels in use
  leaves room for the two flipper channels and is at most 6, the maximum the
  program's comment gives.
\<close>

definition state_ok :: "state \<Rightarrow> bool" where
  "state_ok s =
     (length (motors s) = 4 \<and> length (pots s) = 6 \<and> 2 \<le> n_adc s \<and> n_adc s \<le> 6 \<and>
      int (length (adc_results s)) = n_adc s)"

text \<open>An access outside of an array is undefined behaviour in C: an error here.\<close>

datatype error = OutOfBounds

definition array_get :: "'a list \<Rightarrow> int \<Rightarrow> error + 'a" where
  "array_get xs i =
     (if 0 \<le> i \<and> i < int (length xs) then Inr (xs ! nat i) else Inl OutOfBounds)"

definition array_set :: "'a list \<Rightarrow> int \<Rightarrow> 'a \<Rightarrow> error + 'a list" where
  "array_set xs i v =
     (if 0 \<le> i \<and> i < int (length xs) then Inr (xs[nat i := v]) else Inl OutOfBounds)"

definition and_then :: "error + 'a \<Rightarrow> ('a \<Rightarrow> error + 'b) \<Rightarrow> error + 'b" where
  "and_then r f = (case r of Inl e \<Rightarrow> Inl e | Inr x \<Rightarrow> f x)"

text \<open>\<^verbatim>\<open>motors[i].drive(v)\<close> on the array of motors.\<close>

definition motors_drive :: "nat \<Rightarrow> real \<Rightarrow> Motor list \<Rightarrow> error + Motor list" where
  "motors_drive i v ms =
     and_then (array_get ms (int i)) (\<lambda>m. array_set ms (int i) (drive v m))"

section \<open>One iteration of the main loop\<close>

text \<open>
  \<^verbatim>\<open>if(rpi.readable()) { packet.as_byte = rpi.getc(); }\<close>
  The argument is the byte waiting on the link, if any.
\<close>

definition ingest :: "8 word option \<Rightarrow> state \<Rightarrow> state" where
  "ingest rx s =
     (case rx of
        Some c \<Rightarrow> s\<lparr>packet := (packet s)\<lparr>as_byte := c\<rparr>\<rparr>
      | None \<Rightarrow> s)"

text \<open>
  \<^verbatim>\<open>sign = packet.b.negative ? -1 : 1;\<close> and the argument of the call of \<^verbatim>\<open>drive\<close>,
  \<^verbatim>\<open>sign * packet.b.speed / 31.0\<close>. The bit-field \<open>speed\<close> is promoted to \<^verbatim>\<open>int\<close>, so
  the product with \<open>sign\<close> is a signed integer. The division is a
  floating-point one, modelled by the exact quotient it approximates.
\<close>

definition normalized_speed :: "MotorPacketBits \<Rightarrow> real" where
  "normalized_speed b =
     (let sign = (if negative b \<noteq> 0 then - 1 else 1 :: int)
      in real_of_int (sign * int (speed b)) / 31)"

text \<open>
  \<^verbatim>\<open>if(packet.b.negative and !packet.b.speed) { /* switch ... */ }
  else { sign = ...;  motors[packet.b.motor_id].drive(sign * packet.b.speed / 31.0); }\<close>
  The switch on the motor id is commented out in the program, so the first
  branch is empty.
\<close>

definition act :: "state \<Rightarrow> error + state" where
  "act s =
     (let b = MotorPacket_b (packet s) in
      if is_extension b then Inr s
      else
        and_then (motors_drive (motor_id b) (normalized_speed b) (motors s)) (\<lambda>ms.
        Inr (s\<lparr>motors := ms,
               drive_calls := drive_calls s @ [(motor_id b, normalized_speed b)]\<rparr>)))"

text \<open>
  \<^verbatim>\<open>for(int i = 0; i < n_adc - 2; i++) { adc_results[i] = pots[i].read_u16(); }\<close>
  The argument \<open>adc\<close> gives the 16-bit reading of each analog pin in this
  iteration.
\<close>

function sample_loop :: "(PinName \<Rightarrow> 16 word) \<Rightarrow> nat \<Rightarrow> state \<Rightarrow> error + state" where
  "sample_loop adc i s =
     (if int i < n_adc s - 2 then
        (case array_get (pots s) (int i) of
           Inl e \<Rightarrow> Inl e
         | Inr pin \<Rightarrow>
            (case array_set (adc_results s) (int i) (adc pin) of
               Inl e \<Rightarrow> Inl e
             | Inr r \<Rightarrow> sample_loop adc (Suc i) (s\<lparr>adc_results := r\<rparr>)))
      else Inr s)"
  by pat_completeness auto
termination
  by (relation "measure (\<lambda>(adc, i, s). nat (n_adc s - 2 - int i))") auto

declare sample_loop.simps [simp del]

text \<open>
  The loop, and then
  \<^verbatim>\<open>adc_results[n_adc - 2] = pots[4].read_u16();  // Left flipper position
  adc_results[n_adc - 1] = pots[5].read_u16();  // Right flipper position\<close>
\<close>

definition sample :: "(PinName \<Rightarrow> 16 word) \<Rightarrow> state \<Rightarrow> error + state" where
  "sample adc s =
     and_then (sample_loop adc 0 s) (\<lambda>s1.
     and_then (array_get (pots s1) 4) (\<lambda>left.
     and_then (array_set (adc_results s1) (n_adc s1 - 2) (adc left)) (\<lambda>r1.
     and_then (array_get (pots s1) 5) (\<lambda>right.
     and_then (array_set r1 (n_adc s1 - 1) (adc right)) (\<lambda>r2.
     Inr (s1\<lparr>adc_results := r2\<rparr>))))))"

text \<open>
  The conversion \<^verbatim>\<open>%X\<close> of \<^verbatim>\<open>printf\<close>: upper-case hexadecimal digits, most
  significant first, with no padding.
\<close>

definition hex_digit :: "nat \<Rightarrow> char" where
  "hex_digit d = ''0123456789ABCDEF'' ! d"

function hex_X :: "nat \<Rightarrow> string" where
  "hex_X n = (if n < 16 then [hex_digit n] else hex_X (n div 16) @ [hex_digit (n mod 16)])"
  by pat_completeness auto
termination
  by (relation "measure (\<lambda>n. n)") auto

declare hex_X.simps [simp del]

text \<open>\<^verbatim>\<open>rpi.printf("0x%X ", adc_results[i])\<close>: the characters written.\<close>

definition printf_0xX :: "16 word \<Rightarrow> string" where
  "printf_0xX v = ''0x'' @ hex_X (unat v) @ '' ''"

text \<open>\<^verbatim>\<open>for(int i = 0; i < n_adc; i++) { rpi.printf("0x%X ", adc_results[i]); }\<close>\<close>

function report_loop :: "nat \<Rightarrow> state \<Rightarrow> error + state" where
  "report_loop i s =
     (if int i < n_adc s then
        (case array_get (adc_results s) (int i) of
           Inl e \<Rightarrow> Inl e
         | Inr v \<Rightarrow> report_loop (Suc i) (s\<lparr>rpi_tx := rpi_tx s @ printf_0xX v\<rparr>))
      else Inr s)"
  by pat_completeness auto
termination
  by (relation "measure (\<lambda>(i, s). nat (n_adc s - int i))") auto

declare report_loop.simps [simp del]

text \<open>The loop, and then \<^verbatim>\<open>rpi.printf("\n");\<close>\<close>

definition report :: "state \<Rightarrow> error + state" where
  "report s =
     and_then (report_loop 0 s) (\<lambda>s1. Inr (s1\<lparr>rpi_tx := rpi_tx s1 @ [CHR 0x0A]\<rparr>))"

text \<open>The body of \<^verbatim>\<open>while(1)\<close>: ingest, act, sample, report.\<close>

definition iteration :: "8 word option \<Rightarrow> (PinName \<Rightarrow> 16 word) \<Rightarrow> state \<Rightarrow> error + state" where
  "iteration rx adc s =
     and_then (act (ingest rx s)) (\<lambda>s1.
     and_then (sample adc s1) (\<lambda>s2.
     report s2))"

section \<open>Facts about the bit-fields\<close>

lemma bit_field_less: "bit_field offset width w < 2 ^ width"
proof -
  have "unat (take_bit width (drop_bit offset w)) = take_bit width (unat (drop_bit offset w))"
    by (simp add: unsigned_take_bit_eq)
  then show ?thesis
    by (simp add: bit_field_def take_bit_eq_mod)
qed

lemma bit_field_div_mod:
  "bit_field offset width w = (unat w div 2 ^ offset) mod 2 ^ width"
proof -
  have "bit_field offset width w = take_bit width (drop_bit offset (unat w))"
    by (simp only: bit_field_def unsigned_take_bit_eq unat_drop_bit_eq)
  then show ?thesis
    by (simp only: take_bit_eq_mod drop_bit_eq_div)
qed

lemma motor_id_less: "motor_id (MotorPacket_b p) < 4"
  using bit_field_less [of 0 2 "as_byte p"] by (simp add: MotorPacket_b_def)

section \<open>Decoding is total and stays in range\<close>

text \<open>
  C1. For every byte, \<open>decode\<close> yields a packet whose \<open>motor_id\<close> is at most 3
  and whose \<open>speed\<close> is at most 31 (both are unsigned, so at least 0), and the
  packet is taken as an extension command exactly when its \<open>negative\<close> flag is
  set (the one-bit field is 1) and its \<open>speed\<close> is 0. The byte ranges over the
  type of 8-bit words, that is over 0 to 255, and \<open>decode\<close> is a total function
  with no error value.
\<close>

theorem decode_total_in_range:
  "motor_id (decode byte) \<le> 3 \<and> speed (decode byte) \<le> 31 \<and>
   negative (decode byte) \<le> 1 \<and>
   (is_extension (decode byte) \<longleftrightarrow> negative (decode byte) = 1 \<and> speed (decode byte) = 0)"
proof -
  have m: "bit_field 0 2 byte < 2 ^ 2" by (rule bit_field_less)
  have n: "bit_field 2 1 byte < 2 ^ 1" by (rule bit_field_less)
  have s: "bit_field 3 5 byte < 2 ^ 5" by (rule bit_field_less)
  from m n s show ?thesis
    by (auto simp: decode_def MotorPacket_b_def is_extension_def)
qed

section \<open>Packing and decoding\<close>

lemma bit_field_nat:
  "bit_field offset width w = take_bit width (drop_bit offset (unat w))"
  by (simp only: bit_field_def unsigned_take_bit_eq unat_drop_bit_eq)

lemma encode_of_nat:
  "encode b = word_of_nat (motor_id b OR push_bit 2 (negative b) OR push_bit 3 (speed b))"
  by (simp only: encode_def of_nat_or_eq push_bit_of_nat)

lemma bit_field_encode:
  "bit_field offset width (encode b) =
     take_bit (min width (8 - offset))
       (drop_bit offset (motor_id b OR push_bit 2 (negative b) OR push_bit 3 (speed b)))"
  by (simp add: bit_field_nat encode_of_nat unsigned_of_nat drop_bit_take_bit
      del: of_nat_or_eq)

lemma field_motor_id:
  assumes "m \<le> (3::nat)"
  shows "take_bit 2 (drop_bit 0 (m OR push_bit 2 n OR push_bit 3 v)) = m"
proof -
  have "take_bit 2 m = m"
    using assms by (simp add: take_bit_eq_mod)
  moreover have "take_bit 2 (push_bit 2 n) = 0"
    by (simp add: take_bit_push_bit)
  moreover have "take_bit 2 (push_bit 3 v) = 0"
    by (simp add: take_bit_push_bit)
  ultimately show ?thesis
    by (simp add: take_bit_or)
qed

lemma field_negative:
  assumes "m \<le> (3::nat)" "n \<le> (1::nat)"
  shows "take_bit 1 (drop_bit 2 (m OR push_bit 2 n OR push_bit 3 v)) = n"
proof -
  have "drop_bit 2 m = 0"
    using assms by (simp add: drop_bit_eq_div)
  moreover have "drop_bit 2 (push_bit 2 n) = n"
    by (simp add: drop_bit_push_bit)
  moreover have "take_bit 1 n = n"
    using assms by (simp add: take_bit_eq_mod)
  moreover have "take_bit 1 (drop_bit 2 (push_bit 3 v)) = 0"
    by (simp add: drop_bit_push_bit take_bit_push_bit)
  ultimately show ?thesis
    by (simp add: take_bit_or drop_bit_or)
qed

lemma field_speed:
  assumes "m \<le> (3::nat)" "n \<le> (1::nat)" "v \<le> (31::nat)"
  shows "take_bit 5 (drop_bit 3 (m OR push_bit 2 n OR push_bit 3 v)) = v"
proof -
  have "drop_bit 3 m = 0"
    using assms by (simp add: drop_bit_eq_div)
  moreover have "drop_bit 3 (push_bit 2 n) = 0"
    using assms by (simp add: drop_bit_eq_div push_bit_eq_mult)
  moreover have "drop_bit 3 (push_bit 3 v) = v"
    by (simp add: drop_bit_push_bit)
  moreover have "take_bit 5 v = v"
    using assms by (simp add: take_bit_eq_mod)
  ultimately show ?thesis
    by (simp add: take_bit_or drop_bit_or)
qed

text \<open>
  C5. For every triple of a \<open>motor_id\<close> of at most 3, a \<open>negative\<close> flag of at
  most 1 and a \<open>speed\<close> of at most 31, packing the triple into a command byte
  and decoding that byte gives the triple back.
\<close>

theorem encode_decode_roundtrip:
  assumes "motor_id b \<le> 3" "negative b \<le> 1" "speed b \<le> 31"
  shows "decode (encode b) = b"
proof -
  have m: "bit_field 0 2 (encode b) = motor_id b"
    using field_motor_id [OF assms(1), of "negative b" "speed b"]
    by (simp add: bit_field_encode)
  have n: "bit_field 2 1 (encode b) = negative b"
    using field_negative [OF assms(1) assms(2), of "speed b"]
    by (simp add: bit_field_encode)
  have v: "bit_field 3 5 (encode b) = speed b"
    using field_speed [OF assms]
    by (simp add: bit_field_encode)
  have "MotorPacket_b \<lparr>as_byte = encode b\<rparr> =
          \<lparr>motor_id = motor_id b, negative = negative b, speed = speed b\<rparr>"
    by (simp only: MotorPacket_b_def MotorPacket.simps m n v)
  then show ?thesis
    by (simp add: decode_def)
qed

theorem encode_decode_roundtrip_witness:
  "motor_id \<lparr>motor_id = 2, negative = 1, speed = 21\<rparr> \<le> 3 \<and>
   negative \<lparr>motor_id = 2, negative = 1, speed = 21\<rparr> \<le> 1 \<and>
   speed \<lparr>motor_id = 2, negative = 1, speed = 21\<rparr> \<le> 31 \<and>
   encode \<lparr>motor_id = 2, negative = 1, speed = 21\<rparr> = 0xAE \<and>
   decode (encode \<lparr>motor_id = 2, negative = 1, speed = 21\<rparr>) =
     \<lparr>motor_id = 2, negative = 1, speed = 21\<rparr>"
  using encode_decode_roundtrip [of "\<lparr>motor_id = 2, negative = 1, speed = 21\<rparr>"]
  by (simp add: encode_def)

section \<open>Driving a motor\<close>

lemmas hw_defs =
  PwmOut_write_def PwmOut_period_us_def DigitalOut_write_def DigitalOut_read_def

lemma drive_level: "level (dir (drive v m)) = (if v < 0 then 0 else 1)"
  by (simp add: drive_def hw_defs)

lemma drive_duty: "duty (pwm (drive v m)) = (if 1 < \<bar>v\<bar> then 1 else \<bar>v\<bar>)"
  by (simp add: drive_def hw_defs)

lemma drive_idem: "drive v (drive v m) = drive v m"
  by (simp add: drive_def hw_defs)

lemma drive_frame:
  "pwm_pin (pwm (drive v m)) = pwm_pin (pwm m) \<and>
   period_us (pwm (drive v m)) = period_us (pwm m) \<and>
   out_pin (dir (drive v m)) = out_pin (dir m)"
  by (simp add: drive_def hw_defs)

lemma motors_drive_Inr:
  "i < length ms \<Longrightarrow> motors_drive i v ms = Inr (ms[i := drive v (ms ! i)])"
  by (simp add: motors_drive_def and_then_def array_get_def array_set_def)

text \<open>
  C4. For every motor of the array and every speed \<open>v\<close> between -1 and 1,
  \<^verbatim>\<open>motors[i].drive(v)\<close> succeeds, leaves the direction output of motor \<open>i\<close> at
  the forward level exactly when \<open>0 \<le> v\<close> and at the reverse level exactly
  when \<open>v < 0\<close>, and leaves its duty cycle at \<open>\<bar>v\<bar>\<close>. A second call with the
  same arguments leaves the array of motors as the first call left it.
\<close>

theorem drive_sets_direction_and_duty:
  assumes "i < length ms" "- 1 \<le> v" "v \<le> 1"
  shows "\<exists>ms'. motors_drive i v ms = Inr ms' \<and>
           (level (dir (ms' ! i)) = forward_level \<longleftrightarrow> 0 \<le> v) \<and>
           (level (dir (ms' ! i)) = reverse_level \<longleftrightarrow> v < 0) \<and>
           duty (pwm (ms' ! i)) = \<bar>v\<bar> \<and>
           motors_drive i v ms' = Inr ms'"
proof -
  let ?ms = "ms[i := drive v (ms ! i)]"
  from assms(1) have 1: "motors_drive i v ms = Inr ?ms"
    by (rule motors_drive_Inr)
  from assms(1) have nth: "?ms ! i = drive v (ms ! i)"
    by simp
  from assms(1) have "motors_drive i v ?ms = Inr (?ms[i := drive v (?ms ! i)])"
    by (simp add: motors_drive_Inr)
  with nth have 2: "motors_drive i v ?ms = Inr ?ms"
    by (simp add: drive_idem)
  from assms(2,3) have "\<not> 1 < \<bar>v\<bar>"
    by linarith
  then have 3: "duty (pwm (?ms ! i)) = \<bar>v\<bar>"
    by (simp add: nth drive_duty)
  have 4: "level (dir (?ms ! i)) = forward_level \<longleftrightarrow> 0 \<le> v"
    by (auto simp: nth drive_level forward_level_def)
  have 5: "level (dir (?ms ! i)) = reverse_level \<longleftrightarrow> v < 0"
    by (auto simp: nth drive_level reverse_level_def)
  from 1 2 3 4 5 show ?thesis
    by blast
qed

theorem drive_sets_direction_and_duty_witness:
  "(2::nat) < length (motors (main_init \<lparr>as_byte = 0\<rparr>)) \<and>
   - 1 \<le> (- 1 / 2 :: real) \<and> (- 1 / 2 :: real) \<le> 1 \<and>
   (\<exists>ms'. motors_drive 2 (- 1 / 2) (motors (main_init \<lparr>as_byte = 0\<rparr>)) = Inr ms' \<and>
           (level (dir (ms' ! 2)) = forward_level \<longleftrightarrow> 0 \<le> (- 1 / 2 :: real)) \<and>
           (level (dir (ms' ! 2)) = reverse_level \<longleftrightarrow> (- 1 / 2 :: real) < 0) \<and>
           duty (pwm (ms' ! 2)) = \<bar>- 1 / 2\<bar> \<and>
           motors_drive 2 (- 1 / 2) ms' = Inr ms')"
proof -
  have h: "(2::nat) < length (motors (main_init \<lparr>as_byte = 0\<rparr>))"
    by (simp add: main_init_def)
  show ?thesis
    using h drive_sets_direction_and_duty [OF h, of "- 1 / 2"] by simp
qed

section \<open>A new motor\<close>

text \<open>
  The body of the constructor overwrites whatever the constructors of the
  members left.
\<close>

lemma Motor_init_overwrites:
  "Motor_init \<lparr>pwm = \<lparr>pwm_pin = a, duty = d, period_us = p\<rparr>,
               dir = \<lparr>out_pin = b, level = l\<rparr>\<rparr> = Motor_new a b"
  by (simp add: Motor_new_def Motor_init_def PwmOut_new_def DigitalOut_new_def hw_defs)

text \<open>
  C7, as the claim states it, fails: the low level at which a new motor's
  direction output stands is not the forward level. The comment on the
  constructor says that HI is forward, and a forward call of \<open>drive\<close> moves the
  output away from the level the constructor left.
\<close>

theorem Motor_new_dir_not_forward:
  "level (dir (Motor_new p21 p11)) \<noteq> forward_level \<and>
   level (dir (drive (1 / 2) (Motor_new p21 p11))) = forward_level \<and>
   level (dir (drive (1 / 2) (Motor_new p21 p11))) \<noteq> level (dir (Motor_new p21 p11))"
  by (simp add: drive_level Motor_new_def Motor_init_def PwmOut_new_def DigitalOut_new_def
      hw_defs forward_level_def)

text \<open>
  C7, amended. After the body of the constructor has run, on members in any
  state, the PWM output is at zero duty and the direction output is low,
  which is the reverse level; the PWM period is 40 microseconds, that is
  25 kHz. The four motors of \<open>main\<close> are built by this constructor, and no call
  of \<open>drive\<close> has been made when the loop is entered.
\<close>

theorem Motor_init_outputs_low:
  "duty (pwm (Motor_init m)) = 0 \<and> level (dir (Motor_init m)) = 0 \<and>
   level (dir (Motor_init m)) = reverse_level \<and>
   period_us (pwm (Motor_init m)) = 40 \<and>
   1000000 div period_us (pwm (Motor_init m)) = 25000 \<and>
   Motor_new pin_pwm pin_dir =
     Motor_init \<lparr>pwm = PwmOut_new pin_pwm, dir = DigitalOut_new pin_dir\<rparr> \<and>
   motors (main_init packet0) =
     [Motor_new p21 p11, Motor_new p22 p12, Motor_new p23 p13, Motor_new p24 p14] \<and>
   drive_calls (main_init packet0) = []"
  by (simp add: Motor_new_def Motor_init_def hw_defs main_init_def reverse_level_def)

section \<open>The steps of an iteration\<close>

lemma act_extension:
  "is_extension (MotorPacket_b (packet s)) \<Longrightarrow> act s = Inr s"
  by (simp add: act_def)

lemma act_drive:
  assumes "\<not> is_extension (MotorPacket_b (packet s))" "length (motors s) = 4"
  shows "act s =
     Inr (s\<lparr>motors := (motors s)[motor_id (MotorPacket_b (packet s)) :=
                 drive (normalized_speed (MotorPacket_b (packet s)))
                   (motors s ! motor_id (MotorPacket_b (packet s)))],
            drive_calls := drive_calls s @
              [(motor_id (MotorPacket_b (packet s)), normalized_speed (MotorPacket_b (packet s)))]\<rparr>)"
proof -
  from assms(2) have "motor_id (MotorPacket_b (packet s)) < length (motors s)"
    using motor_id_less [of "packet s"] by simp
  then show ?thesis
    using assms(1) by (simp add: act_def motors_drive_Inr and_then_def Let_def)
qed

lemma sample_loop_result:
  "int i \<le> n_adc s - 2 \<Longrightarrow> n_adc s - 2 \<le> int (length (pots s)) \<Longrightarrow>
   int (length (adc_results s)) = n_adc s \<Longrightarrow>
   sample_loop adc i s =
     Inr (s\<lparr>adc_results := take i (adc_results s) @
            map (\<lambda>k. adc (pots s ! k)) [i..<nat (n_adc s - 2)] @
            drop (nat (n_adc s - 2)) (adc_results s)\<rparr>)"
proof (induction adc i s rule: sample_loop.induct)
  case (1 adc i s)
  show ?case
  proof (cases "int i < n_adc s - 2")
    case False
    with "1.prems" have "nat (n_adc s - 2) = i" by simp
    with False show ?thesis by (simp add: sample_loop.simps)
  next
    case True
    let ?r = "(adc_results s)[i := adc (pots s ! i)]"
    let ?s = "s\<lparr>adc_results := ?r\<rparr>"
    from True "1.prems" have g: "array_get (pots s) (int i) = Inr (pots s ! i)"
      by (simp add: array_get_def)
    from True "1.prems" have u: "array_set (adc_results s) (int i) (adc (pots s ! i)) = Inr ?r"
      by (simp add: array_set_def)
    from True "1.prems" have ih: "sample_loop adc (Suc i) ?s =
      Inr (?s\<lparr>adc_results := take (Suc i) (adc_results ?s) @
            map (\<lambda>k. adc (pots ?s ! k)) [Suc i..<nat (n_adc ?s - 2)] @
            drop (nat (n_adc ?s - 2)) (adc_results ?s)\<rparr>)"
      by (intro "1.IH" [OF True g u]) simp_all
    from True "1.prems" have il: "i < length (adc_results s)" and im: "i < nat (n_adc s - 2)"
      by simp_all
    from il have t: "take (Suc i) ?r = take i (adc_results s) @ [adc (pots s ! i)]"
      by (simp add: take_Suc_conv_app_nth)
    from im have d: "drop (nat (n_adc s - 2)) ?r = drop (nat (n_adc s - 2)) (adc_results s)"
      by simp
    from im have m: "[i..<nat (n_adc s - 2)] = i # [Suc i..<nat (n_adc s - 2)]"
      by (simp add: upt_conv_Cons)
    have "sample_loop adc i s = sample_loop adc (Suc i) ?s"
      using True g u by (subst sample_loop.simps) simp
    with ih t d m show ?thesis by simp
  qed
qed

lemma update_last_two:
  "length ys = 2 \<Longrightarrow> (xs @ ys)[length xs := a, Suc (length xs) := b] = xs @ [a, b]"
  by (cases ys; cases "tl ys") (auto simp: list_update_append)

lemma sample_result:
  assumes "state_ok s"
  shows "sample adc s =
     Inr (s\<lparr>adc_results := map (\<lambda>k. adc (pots s ! k)) [0..<nat (n_adc s) - 2] @
            [adc (pots s ! 4), adc (pots s ! 5)]\<rparr>)"
proof -
  let ?n = "nat (n_adc s)"
  let ?xs = "map (\<lambda>k. adc (pots s ! k)) [0..<?n - 2]"
  let ?ys = "drop (?n - 2) (adc_results s)"
  let ?s1 = "s\<lparr>adc_results := ?xs @ ?ys\<rparr>"
  from assms have n: "nat (n_adc s - 2) = ?n - 2" "2 \<le> ?n" "length (adc_results s) = ?n"
    "length (pots s) = 6" "?n \<le> 6"
    by (auto simp: state_ok_def)
  from assms have "sample_loop adc 0 s = Inr (s\<lparr>adc_results := take 0 (adc_results s) @
            map (\<lambda>k. adc (pots s ! k)) [0..<nat (n_adc s - 2)] @
            drop (nat (n_adc s - 2)) (adc_results s)\<rparr>)"
    by (intro sample_loop_result) (simp_all add: state_ok_def)
  with n have loop: "sample_loop adc 0 s = Inr ?s1"
    by simp
  from n have ys: "length ?ys = 2" and xs: "length ?xs = ?n - 2"
    by simp_all
  from n have i1: "nat (n_adc s - 2) = length ?xs" and i2: "nat (n_adc s - 1) = Suc (length ?xs)"
    by simp_all
  from assms have b1: "0 \<le> n_adc s - 2" "n_adc s - 2 < int (length (?xs @ ?ys))"
     "0 \<le> n_adc s - 1" "n_adc s - 1 < int (length (?xs @ ?ys))"
    using n by (simp_all add: state_ok_def)
  have "(?xs @ ?ys)[length ?xs := adc (pots s ! 4), Suc (length ?xs) := adc (pots s ! 5)] =
          ?xs @ [adc (pots s ! 4), adc (pots s ! 5)]"
    using ys by (rule update_last_two)
  with loop n b1 i1 i2 show ?thesis
    by (simp add: sample_def and_then_def array_get_def array_set_def del: length_map length_drop length_append)
qed


lemma report_loop_result:
  "i \<le> length (adc_results s) \<Longrightarrow> int (length (adc_results s)) = n_adc s \<Longrightarrow>
   report_loop i s =
     Inr (s\<lparr>rpi_tx := rpi_tx s @ concat (map printf_0xX (drop i (adc_results s)))\<rparr>)"
proof (induction i s rule: report_loop.induct)
  case (1 i s)
  show ?case
  proof (cases "int i < n_adc s")
    case False
    with "1.prems" have "i = length (adc_results s)" by simp
    with False show ?thesis by (simp add: report_loop.simps)
  next
    case True
    let ?v = "adc_results s ! i"
    let ?s = "s\<lparr>rpi_tx := rpi_tx s @ printf_0xX ?v\<rparr>"
    from True "1.prems" have il: "i < length (adc_results s)"
      by simp
    then have g: "array_get (adc_results s) (int i) = Inr ?v"
      by (simp add: array_get_def)
    from il "1.prems" have ih: "report_loop (Suc i) ?s =
      Inr (?s\<lparr>rpi_tx := rpi_tx ?s @ concat (map printf_0xX (drop (Suc i) (adc_results ?s)))\<rparr>)"
      by (intro "1.IH" [OF True g]) simp_all
    from il have d: "drop i (adc_results s) = ?v # drop (Suc i) (adc_results s)"
      by (simp add: Cons_nth_drop_Suc)
    have "report_loop i s = report_loop (Suc i) ?s"
      using True g by (subst report_loop.simps) simp
    with ih d show ?thesis by simp
  qed
qed

lemma report_result:
  "int (length (adc_results s)) = n_adc s \<Longrightarrow>
   report s =
     Inr (s\<lparr>rpi_tx := rpi_tx s @ concat (map printf_0xX (adc_results s)) @ [CHR 0x0A]\<rparr>)"
  using report_loop_result [of 0 s] by (simp add: report_def and_then_def)

lemma state_ok_ingest: "state_ok (ingest rx s) = state_ok s"
  by (cases rx) (simp_all add: ingest_def state_ok_def)

lemma act_result:
  assumes "length (motors s) = 4"
  shows "act s =
     Inr (if is_extension (MotorPacket_b (packet s)) then s
          else s\<lparr>motors := (motors s)[motor_id (MotorPacket_b (packet s)) :=
                 drive (normalized_speed (MotorPacket_b (packet s)))
                   (motors s ! motor_id (MotorPacket_b (packet s)))],
            drive_calls := drive_calls s @
              [(motor_id (MotorPacket_b (packet s)), normalized_speed (MotorPacket_b (packet s)))]\<rparr>)"
  using assms by (simp add: act_extension act_drive)

lemma state_ok_act:
  assumes "state_ok s"
  shows "\<exists>s'. act s = Inr s' \<and> state_ok s' \<and> packet s' = packet s \<and>
    pots s' = pots s \<and> n_adc s' = n_adc s \<and> adc_results s' = adc_results s \<and> rpi_tx s' = rpi_tx s"
proof -
  from assms have "length (motors s) = 4" by (simp add: state_ok_def)
  from act_result [OF this] assms show ?thesis
    by (auto simp: state_ok_def)
qed

lemma iteration_result:
  assumes "state_ok s" "act (ingest rx s) = Inr s1"
  shows "iteration rx adc s =
     Inr (s1\<lparr>adc_results := map (\<lambda>k. adc (pots s ! k)) [0..<nat (n_adc s) - 2] @
                 [adc (pots s ! 4), adc (pots s ! 5)],
             rpi_tx := rpi_tx s @
               concat (map printf_0xX (map (\<lambda>k. adc (pots s ! k)) [0..<nat (n_adc s) - 2] @
                 [adc (pots s ! 4), adc (pots s ! 5)])) @ [CHR 0x0A]\<rparr>)"
proof -
  let ?r = "map (\<lambda>k. adc (pots s ! k)) [0..<nat (n_adc s) - 2] @ [adc (pots s ! 4), adc (pots s ! 5)]"
  from assms(1) have ok: "state_ok (ingest rx s)"
    by (simp add: state_ok_ingest)
  from state_ok_act [OF ok] assms(2)
  have s1: "state_ok s1" "pots s1 = pots (ingest rx s)" "n_adc s1 = n_adc (ingest rx s)"
    "rpi_tx s1 = rpi_tx (ingest rx s)"
    by auto
  have ing: "pots (ingest rx s) = pots s" "n_adc (ingest rx s) = n_adc s" "rpi_tx (ingest rx s) = rpi_tx s"
    by (cases rx; simp add: ingest_def)+
  from s1 ing have sm: "sample adc s1 = Inr (s1\<lparr>adc_results := ?r\<rparr>)"
    by (simp add: sample_result)
  from assms(1) have "int (length ?r) = n_adc s"
    by (auto simp: state_ok_def)
  with s1 ing have "report (s1\<lparr>adc_results := ?r\<rparr>) =
      Inr (s1\<lparr>adc_results := ?r, rpi_tx := rpi_tx s @ concat (map printf_0xX ?r) @ [CHR 0x0A]\<rparr>)"
    by (subst report_result) simp_all
  with sm assms(2) show ?thesis
    by (simp add: iteration_def and_then_def)
qed

lemma state_ok_main_init: "state_ok (main_init p)"
  by (simp add: main_init_def state_ok_def)

lemma packet_ingest: "MotorPacket_b (packet (ingest (Some c) s)) = decode c"
  by (simp add: ingest_def decode_def MotorPacket_b_def)

lemma act_ingest_drive:
  assumes "length (motors s) = 4" "\<not> is_extension (decode c)"
  shows "act (ingest (Some c) s) =
     Inr (ingest (Some c) s
       \<lparr>motors := (motors s)[motor_id (decode c) :=
           drive (normalized_speed (decode c)) (motors s ! motor_id (decode c))],
        drive_calls := drive_calls s @ [(motor_id (decode c), normalized_speed (decode c))]\<rparr>)"
proof -
  have "motors (ingest (Some c) s) = motors s" "drive_calls (ingest (Some c) s) = drive_calls s"
    by (simp_all add: ingest_def)
  with assms act_drive [of "ingest (Some c) s"] show ?thesis
    by (simp add: packet_ingest)
qed

lemma iteration_no_byte:
  assumes "state_ok s"
  shows "\<exists>s'. iteration None adc s = Inr s' \<and> state_ok s' \<and> packet s' = packet s \<and>
     drive_calls s' = drive_calls s @
       (if is_extension (MotorPacket_b (packet s)) then []
        else [(motor_id (MotorPacket_b (packet s)), normalized_speed (MotorPacket_b (packet s)))]) \<and>
     motors s' =
       (if is_extension (MotorPacket_b (packet s)) then motors s
        else (motors s)[motor_id (MotorPacket_b (packet s)) :=
               drive (normalized_speed (MotorPacket_b (packet s)))
                 (motors s ! motor_id (MotorPacket_b (packet s)))])"
proof -
  have i: "ingest None s = s"
    by (simp add: ingest_def)
  from assms have l: "length (motors s) = 4"
    by (simp add: state_ok_def)
  let ?s1 = "if is_extension (MotorPacket_b (packet s)) then s
          else s\<lparr>motors := (motors s)[motor_id (MotorPacket_b (packet s)) :=
                 drive (normalized_speed (MotorPacket_b (packet s)))
                   (motors s ! motor_id (MotorPacket_b (packet s)))],
            drive_calls := drive_calls s @
              [(motor_id (MotorPacket_b (packet s)), normalized_speed (MotorPacket_b (packet s)))]\<rparr>"
  from act_result [OF l] i have a: "act (ingest None s) = Inr ?s1"
    by simp
  from assms show ?thesis
    by (simp add: iteration_result [OF assms a]) (auto simp: state_ok_def)
qed

section \<open>Some bytes decoded\<close>

lemma decode_ext:
  "decode 4 = \<lparr>motor_id = 0, negative = 1, speed = 0\<rparr>"
  "decode 5 = \<lparr>motor_id = 1, negative = 1, speed = 0\<rparr>"
  "decode 6 = \<lparr>motor_id = 2, negative = 1, speed = 0\<rparr>"
  "decode 7 = \<lparr>motor_id = 3, negative = 1, speed = 0\<rparr>"
  by (simp_all add: decode_def MotorPacket_b_def bit_field_div_mod)

lemma decode_0x20: "decode 0x20 = \<lparr>motor_id = 0, negative = 0, speed = 4\<rparr>"
  by (simp add: decode_def MotorPacket_b_def bit_field_div_mod)

lemma decode_0x41: "decode 0x41 = \<lparr>motor_id = 1, negative = 0, speed = 8\<rparr>"
  by (simp add: decode_def MotorPacket_b_def bit_field_div_mod)

lemma hex_X_0x1234: "hex_X 0x1234 = ''1234''"
  by (simp add: hex_X.simps hex_digit_def)

lemma hex_X_0: "hex_X 0 = ''0''"
  by (simp add: hex_X.simps hex_digit_def)

lemma printf_examples:
  "printf_0xX 0x1234 = ''0x1234 ''" "printf_0xX 0 = ''0x0 ''"
  by (simp_all add: printf_0xX_def hex_X_0x1234 hex_X_0)

section \<open>Sampling\<close>

text \<open>
  C8. In a state of the loop, the sample step succeeds and leaves exactly
  \<open>n_adc\<close> readings. The leading \<open>n_adc - 2\<close> readings come from the channels
  \<open>0\<close> to \<open>n_adc - 3\<close> in ascending order, the last two from the last two
  channels of the array, the left and the right flipper position. The step
  changes nothing but the results: not the channels, not their number, not
  the motors.
\<close>

theorem sample_reads_channels_in_order:
  assumes "state_ok s"
  shows "\<exists>s'. sample adc s = Inr s' \<and>
     adc_results s' =
       map (\<lambda>k. adc (pots s ! k)) [0..<nat (n_adc s) - 2] @
       [adc (pots s ! (length (pots s) - 2)), adc (pots s ! (length (pots s) - 1))] \<and>
     int (length (adc_results s')) = n_adc s \<and>
     pots s' = pots s \<and> n_adc s' = n_adc s \<and> motors s' = motors s \<and>
     packet s' = packet s \<and> rpi_tx s' = rpi_tx s \<and> drive_calls s' = drive_calls s"
proof -
  from assms have "length (pots s) - 2 = 4" "length (pots s) - 1 = 5" "2 \<le> n_adc s"
    by (simp_all add: state_ok_def)
  with sample_result [OF assms, of adc] show ?thesis
    by auto
qed

theorem sample_reads_channels_in_order_witness:
  "state_ok (main_init \<lparr>as_byte = 0\<rparr>\<lparr>n_adc := 5, adc_results := [0, 0, 0, 0, 0]\<rparr>) \<and>
   state_ok (main_init \<lparr>as_byte = 0\<rparr>) \<and>
   (\<exists>s'. sample ((\<lambda>_. 0)(p15 := 1, p16 := 2, p17 := 3, p18 := 4, p19 := 5, p20 := 6))
            (main_init \<lparr>as_byte = 0\<rparr>\<lparr>n_adc := 5, adc_results := [0, 0, 0, 0, 0]\<rparr>) = Inr s' \<and>
      adc_results s' = [1, 2, 3, 5, 6]) \<and>
   (\<exists>s'. sample ((\<lambda>_. 0)(p15 := 1, p16 := 2, p17 := 3, p18 := 4, p19 := 5, p20 := 6))
            (main_init \<lparr>as_byte = 0\<rparr>) = Inr s' \<and>
      adc_results s' = [5, 6])"
proof -
  let ?adc = "(\<lambda>_. 0)(p15 := 1, p16 := 2, p17 := 3, p18 := 4, p19 := 5, p20 := 6)
    :: PinName \<Rightarrow> 16 word"
  let ?s = "main_init \<lparr>as_byte = 0\<rparr>\<lparr>n_adc := 5, adc_results := [0, 0, 0, 0, 0]\<rparr>"
  have ok5: "state_ok ?s"
    by (simp add: main_init_def state_ok_def)
  have ok2: "state_ok (main_init \<lparr>as_byte = 0\<rparr>)"
    by (rule state_ok_main_init)
  have u: "[0..<3] = [0, 1, 2]"
    by (simp add: upt_rec)
  from sample_reads_channels_in_order [OF ok5, of ?adc]
  have 5: "\<exists>s'. sample ?adc ?s = Inr s' \<and> adc_results s' = [1, 2, 3, 5, 6]"
    by (auto simp: main_init_def u)
  from sample_reads_channels_in_order [OF ok2, of ?adc]
  have 2: "\<exists>s'. sample ?adc (main_init \<lparr>as_byte = 0\<rparr>) = Inr s' \<and> adc_results s' = [5, 6]"
    by (auto simp: main_init_def)
  from ok5 ok2 5 2 show ?thesis
    by blast
qed

section \<open>What the act step changes\<close>

text \<open>
  C9. When the packet is a drive command, the act step succeeds and changes
  the motor the packet names at most: every other entry of the array of
  motors is as before, the named motor keeps its pins and its PWM period, and
  the sensor channels, their number, the results, the packet and the serial
  output are as before.
\<close>

theorem drive_command_frame:
  assumes "length (motors s) = 4" "\<not> is_extension (MotorPacket_b (packet s))"
  shows "\<exists>s'. act s = Inr s' \<and>
     length (motors s') = length (motors s) \<and>
     (\<forall>j. j \<noteq> motor_id (MotorPacket_b (packet s)) \<longrightarrow> motors s' ! j = motors s ! j) \<and>
     pwm_pin (pwm (motors s' ! motor_id (MotorPacket_b (packet s)))) =
       pwm_pin (pwm (motors s ! motor_id (MotorPacket_b (packet s)))) \<and>
     period_us (pwm (motors s' ! motor_id (MotorPacket_b (packet s)))) =
       period_us (pwm (motors s ! motor_id (MotorPacket_b (packet s)))) \<and>
     out_pin (dir (motors s' ! motor_id (MotorPacket_b (packet s)))) =
       out_pin (dir (motors s ! motor_id (MotorPacket_b (packet s)))) \<and>
     pots s' = pots s \<and> n_adc s' = n_adc s \<and> adc_results s' = adc_results s \<and>
     packet s' = packet s \<and> rpi_tx s' = rpi_tx s"
proof -
  from assms(1) have "motor_id (MotorPacket_b (packet s)) < length (motors s)"
    using motor_id_less [of "packet s"] by simp
  with act_drive [OF assms(2) assms(1)] show ?thesis
    by (simp add: drive_frame)
qed

theorem drive_command_frame_witness:
  "length (motors (main_init \<lparr>as_byte = 0x41\<rparr>)) = 4 \<and>
   \<not> is_extension (MotorPacket_b (packet (main_init \<lparr>as_byte = 0x41\<rparr>))) \<and>
   motor_id (MotorPacket_b (packet (main_init \<lparr>as_byte = 0x41\<rparr>))) = 1 \<and>
   (\<exists>s'. act (main_init \<lparr>as_byte = 0x41\<rparr>) = Inr s' \<and>
      motors s' ! 0 = Motor_new p21 p11 \<and> motors s' ! 2 = Motor_new p23 p13 \<and>
      motors s' ! 3 = Motor_new p24 p14 \<and>
      pots s' = [p15, p16, p17, p18, p19, p20] \<and> n_adc s' = 2)"
proof -
  let ?s = "main_init \<lparr>as_byte = 0x41\<rparr>"
  have l: "length (motors ?s) = 4"
    by (simp add: main_init_def)
  have e: "\<not> is_extension (MotorPacket_b (packet ?s))"
    by (simp add: main_init_def is_extension_def MotorPacket_b_def bit_field_div_mod)
  have i: "motor_id (MotorPacket_b (packet ?s)) = 1"
    by (simp add: main_init_def MotorPacket_b_def bit_field_div_mod)
  from drive_command_frame [OF l e] obtain s' where s': "act ?s = Inr s'"
    "\<forall>j. j \<noteq> motor_id (MotorPacket_b (packet ?s)) \<longrightarrow> motors s' ! j = motors ?s ! j"
    "pots s' = pots ?s" "n_adc s' = n_adc ?s"
    by blast
  from s'(2) i have "motors s' ! 0 = motors ?s ! 0" "motors s' ! 2 = motors ?s ! 2"
    "motors s' ! 3 = motors ?s ! 3"
    by simp_all
  with s' l e i show ?thesis
    by (simp add: main_init_def)
qed

text \<open>
  C10. When the packet is an extension command, the act step succeeds and
  returns the state it was given: no motor's duty cycle or direction output
  changes and \<open>drive\<close> is not called, whatever the motor id of the packet.
\<close>

theorem extension_command_no_motor_change:
  assumes "is_extension (MotorPacket_b (packet s))"
  shows "\<exists>s'. act s = Inr s' \<and> motors s' = motors s \<and> drive_calls s' = drive_calls s \<and> s' = s"
  using act_extension [OF assms] by simp

theorem extension_command_no_motor_change_witness:
  "is_extension (MotorPacket_b (packet (ingest (Some 6) (main_init \<lparr>as_byte = 0\<rparr>)))) \<and>
   motor_id (MotorPacket_b (packet (ingest (Some 6) (main_init \<lparr>as_byte = 0\<rparr>)))) = 2 \<and>
   (\<exists>s'. act (ingest (Some 6) (main_init \<lparr>as_byte = 0\<rparr>)) = Inr s' \<and>
      motors s' = motors (main_init \<lparr>as_byte = 0\<rparr>) \<and> drive_calls s' = [])"
proof -
  let ?s = "ingest (Some 6) (main_init \<lparr>as_byte = 0\<rparr>)"
  have e: "is_extension (MotorPacket_b (packet ?s))"
    by (simp add: packet_ingest decode_ext is_extension_def)
  have "motors ?s = motors (main_init \<lparr>as_byte = 0\<rparr>)" "drive_calls ?s = []"
    by (simp_all add: ingest_def main_init_def)
  with e extension_command_no_motor_change [OF e] show ?thesis
    by (simp add: packet_ingest decode_ext)
qed

section \<open>The byte 0b00100000\<close>

text \<open>
  C3, as the claim states it, fails: in the byte \<open>0b00100000\<close> bit 2, the
  \<open>negative\<close> flag, is clear and the top five bits, the \<open>speed\<close>, are 4. The
  byte is a drive command, and acting on it calls \<open>drive\<close> on motor 0 with speed
  \<open>4 / 31\<close>.
\<close>

theorem byte_0x20_drives_motor:
  "negative (decode 0x20) \<noteq> 1 \<and> speed (decode 0x20) \<noteq> 0 \<and> \<not> is_extension (decode 0x20) \<and>
   act (ingest (Some 0x20) (main_init \<lparr>as_byte = 0\<rparr>)) =
     Inr (ingest (Some 0x20) (main_init \<lparr>as_byte = 0\<rparr>)
       \<lparr>motors := [drive (4 / 31) (Motor_new p21 p11), Motor_new p22 p12, Motor_new p23 p13,
                   Motor_new p24 p14],
        drive_calls := [(0, 4 / 31)]\<rparr>)"
proof -
  have e: "\<not> is_extension (decode 0x20)"
    by (simp add: decode_0x20 is_extension_def)
  have l: "length (motors (main_init \<lparr>as_byte = 0\<rparr>)) = 4"
    by (simp add: main_init_def)
  from act_ingest_drive [OF l e] e show ?thesis
    by (simp add: decode_0x20 normalized_speed_def main_init_def)
qed

text \<open>
  C3, amended. The byte \<open>0b00000100\<close> decodes to a packet with \<open>negative\<close> 1,
  \<open>speed\<close> 0 and \<open>motor_id\<close> 0. It is an extension command: acting on it
  returns the state unchanged, with the motors and the log of \<open>drive\<close> calls as
  they were, and a whole iteration that receives it on entry to the loop
  makes no call of \<open>drive\<close> and leaves the motors as built. The byte
  \<open>0b00100000\<close> decodes to \<open>negative\<close> 0, \<open>speed\<close> 4 and \<open>motor_id\<close> 0.
\<close>

theorem byte_0x04_is_extension_0:
  "decode 4 = \<lparr>motor_id = 0, negative = 1, speed = 0\<rparr> \<and> is_extension (decode 4) \<and>
   act (ingest (Some 4) s) = Inr (ingest (Some 4) s) \<and>
   motors (ingest (Some 4) s) = motors s \<and>
   drive_calls (ingest (Some 4) s) = drive_calls s \<and>
   (\<exists>s'. iteration (Some 4) adc (main_init packet0) = Inr s' \<and>
      motors s' = motors (main_init packet0) \<and> drive_calls s' = []) \<and>
   decode 0x20 = \<lparr>motor_id = 0, negative = 0, speed = 4\<rparr>"
proof -
  have e: "is_extension (decode 4)"
    by (simp add: decode_ext is_extension_def)
  then have a: "act (ingest (Some 4) s) = Inr (ingest (Some 4) s)" for s
    by (simp add: act_extension packet_ingest)
  have "\<exists>s'. iteration (Some 4) adc (main_init packet0) = Inr s' \<and>
      motors s' = motors (main_init packet0) \<and> drive_calls s' = []"
    by (simp add: iteration_result [OF state_ok_main_init a]) (simp add: ingest_def main_init_def)
  with e a show ?thesis
    by (simp add: decode_ext decode_0x20 ingest_def)
qed

section \<open>The byte 0x41, end to end\<close>

text \<open>
  C2, as the claim states it, fails: the top five bits of \<open>0x41\<close> are \<open>01000\<close>,
  so the \<open>speed\<close> is 8 and not 2, and acting on the byte calls \<open>drive\<close> on motor
  1 with speed \<open>8 / 31\<close>.
\<close>

theorem byte_0x41_speed_not_2:
  "\<not> (motor_id (decode 0x41) = 1 \<and> negative (decode 0x41) = 0 \<and> speed (decode 0x41) = 2) \<and>
   normalized_speed (decode 0x41) \<noteq> 2 / 31 \<and>
   act (ingest (Some 0x41) (main_init \<lparr>as_byte = 0\<rparr>)) =
     Inr (ingest (Some 0x41) (main_init \<lparr>as_byte = 0\<rparr>)
       \<lparr>motors := [Motor_new p21 p11, drive (8 / 31) (Motor_new p22 p12), Motor_new p23 p13,
                   Motor_new p24 p14],
        drive_calls := [(1, 8 / 31)]\<rparr>)"
proof -
  have e: "\<not> is_extension (decode 0x41)"
    by (simp add: decode_0x41 is_extension_def)
  have l: "length (motors (main_init \<lparr>as_byte = 0\<rparr>)) = 4"
    by (simp add: main_init_def)
  from act_ingest_drive [OF l e] show ?thesis
    by (simp add: decode_0x41 normalized_speed_def main_init_def)
qed

text \<open>
  C2, amended. The byte \<open>0x41\<close> decodes to \<open>motor_id\<close> 1, \<open>negative\<close> 0 and
  \<open>speed\<close> 8. An iteration that receives it on entry to the loop, while the
  two channels in use read \<open>0x1234\<close> and \<open>0x0000\<close>, calls \<open>drive\<close> once, on
  motor 1 with speed \<open>8 / 31\<close>, which leaves that motor at the forward level
  with duty \<open>8 / 31\<close>, and writes to the serial link exactly
  \<open>0x1234 0x0 \<close> followed by a newline.
\<close>

theorem byte_0x41_end_to_end:
  "decode 0x41 = \<lparr>motor_id = 1, negative = 0, speed = 8\<rparr> \<and>
   iteration (Some 0x41) (adc(p19 := 0x1234, p20 := 0)) (main_init packet0) =
     Inr (main_init (packet0\<lparr>as_byte := 0x41\<rparr>)
       \<lparr>motors := [Motor_new p21 p11, drive (8 / 31) (Motor_new p22 p12), Motor_new p23 p13,
                   Motor_new p24 p14],
        adc_results := [0x1234, 0],
        rpi_tx := ''0x1234 0x0 '' @ [CHR 0x0A],
        drive_calls := [(1, 8 / 31)]\<rparr>) \<and>
   level (dir (drive (8 / 31) (Motor_new p22 p12))) = forward_level \<and>
   duty (pwm (drive (8 / 31) (Motor_new p22 p12))) = 8 / 31"
proof -
  let ?adc = "adc(p19 := 0x1234, p20 := 0)"
  have e: "\<not> is_extension (decode 0x41)"
    by (simp add: decode_0x41 is_extension_def)
  have ok: "state_ok (main_init packet0)"
    by (rule state_ok_main_init)
  then have l: "length (motors (main_init packet0)) = 4"
    by (simp add: state_ok_def)
  have a: "act (ingest (Some 0x41) (main_init packet0)) =
     Inr (main_init (packet0\<lparr>as_byte := 0x41\<rparr>)
       \<lparr>motors := [Motor_new p21 p11, drive (8 / 31) (Motor_new p22 p12), Motor_new p23 p13,
                   Motor_new p24 p14],
        drive_calls := [(1, 8 / 31)]\<rparr>)"
    using act_ingest_drive [OF l e]
    by (simp add: decode_0x41 normalized_speed_def main_init_def ingest_def)
  have "iteration (Some 0x41) ?adc (main_init packet0) =
     Inr (main_init (packet0\<lparr>as_byte := 0x41\<rparr>)
       \<lparr>motors := [Motor_new p21 p11, drive (8 / 31) (Motor_new p22 p12), Motor_new p23 p13,
                   Motor_new p24 p14],
        adc_results := [0x1234, 0],
        rpi_tx := ''0x1234 0x0 '' @ [CHR 0x0A],
        drive_calls := [(1, 8 / 31)]\<rparr>)"
    by (simp add: iteration_result [OF ok a] printf_examples) (simp add: main_init_def)
  then show ?thesis
    by (simp add: decode_0x41 drive_level drive_duty forward_level_def)
qed

section \<open>No new byte\<close>

lemma speed_less: "speed (MotorPacket_b p) < 32"
  using bit_field_less [of 3 5 "as_byte p"] by (simp add: MotorPacket_b_def)

lemma normalized_speed_abs:
  "\<bar>normalized_speed b\<bar> = real (speed b) / 31"
  by (simp add: normalized_speed_def)

lemma normalized_speed_negative:
  "\<not> is_extension b \<Longrightarrow> normalized_speed b < 0 \<longleftrightarrow> negative b \<noteq> 0"
  by (auto simp: normalized_speed_def is_extension_def)

lemma drive_packet_outputs:
  assumes "\<not> is_extension (MotorPacket_b p)"
  shows "level (dir (drive (normalized_speed (MotorPacket_b p)) m)) =
           (if negative (MotorPacket_b p) \<noteq> 0 then reverse_level else forward_level) \<and>
         duty (pwm (drive (normalized_speed (MotorPacket_b p)) m)) =
           real (speed (MotorPacket_b p)) / 31"
proof -
  from speed_less [of p] have "\<not> 1 < real (speed (MotorPacket_b p)) / 31"
    by simp
  with normalized_speed_negative [OF assms] show ?thesis
    by (simp add: drive_level drive_duty normalized_speed_abs forward_level_def reverse_level_def)
qed

text \<open>
  C6. In a state of the loop, an iteration that finds no byte on the link
  succeeds and keeps the packet, and so does the iteration after it. Each of
  the two applies the command the held packet dictates. If the packet is an
  extension command, neither calls \<open>drive\<close> and the motors stay as they were.
  Otherwise each makes one call of \<open>drive\<close>, on the packet's motor with the
  packet's normalized speed: after the first iteration the array of motors is
  the one before it with that motor driven, the motor's direction output is
  at the reverse level if the packet's \<open>negative\<close> flag is set and at the
  forward level if not, and its duty cycle is the packet's speed over 31; the
  second iteration drives the same motor of the array the first one left, with
  the same speed, and leaves the array as the first left it.
\<close>

theorem no_byte_holds_last_command:
  assumes "state_ok s"
  shows "\<exists>s1 s2. iteration None adc1 s = Inr s1 \<and> iteration None adc2 s1 = Inr s2 \<and>
     packet s1 = packet s \<and> packet s2 = packet s \<and>
     drive_calls s1 = drive_calls s @
       (if is_extension (MotorPacket_b (packet s)) then []
        else [(motor_id (MotorPacket_b (packet s)), normalized_speed (MotorPacket_b (packet s)))]) \<and>
     drive_calls s2 = drive_calls s1 @
       (if is_extension (MotorPacket_b (packet s)) then []
        else [(motor_id (MotorPacket_b (packet s)), normalized_speed (MotorPacket_b (packet s)))]) \<and>
     motors s1 =
       (if is_extension (MotorPacket_b (packet s)) then motors s
        else (motors s)[motor_id (MotorPacket_b (packet s)) :=
               drive (normalized_speed (MotorPacket_b (packet s)))
                 (motors s ! motor_id (MotorPacket_b (packet s)))]) \<and>
     motors s2 =
       (if is_extension (MotorPacket_b (packet s)) then motors s1
        else (motors s1)[motor_id (MotorPacket_b (packet s)) :=
               drive (normalized_speed (MotorPacket_b (packet s)))
                 (motors s1 ! motor_id (MotorPacket_b (packet s)))]) \<and>
     (if is_extension (MotorPacket_b (packet s)) then motors s1 = motors s
      else
        level (dir (motors s1 ! motor_id (MotorPacket_b (packet s)))) =
          (if negative (MotorPacket_b (packet s)) \<noteq> 0 then reverse_level else forward_level) \<and>
        duty (pwm (motors s1 ! motor_id (MotorPacket_b (packet s)))) =
          real (speed (MotorPacket_b (packet s))) / 31 \<and>
        (\<forall>j. j \<noteq> motor_id (MotorPacket_b (packet s)) \<longrightarrow> motors s1 ! j = motors s ! j)) \<and>
     length (motors s1) = 4 \<and>
     motors s2 = motors s1"
proof -
  let ?b = "MotorPacket_b (packet s)"
  from iteration_no_byte [OF assms, of adc1] obtain s1 where
    s1: "iteration None adc1 s = Inr s1" "state_ok s1" "packet s1 = packet s"
      "drive_calls s1 = drive_calls s @
        (if is_extension ?b then [] else [(motor_id ?b, normalized_speed ?b)])"
      "motors s1 = (if is_extension ?b then motors s
         else (motors s)[motor_id ?b := drive (normalized_speed ?b) (motors s ! motor_id ?b)])"
    by blast
  from iteration_no_byte [OF s1(2), of adc2] s1(3) obtain s2 where
    s2: "iteration None adc2 s1 = Inr s2" "packet s2 = packet s"
      "drive_calls s2 = drive_calls s1 @
        (if is_extension ?b then [] else [(motor_id ?b, normalized_speed ?b)])"
      "motors s2 = (if is_extension ?b then motors s1
         else (motors s1)[motor_id ?b := drive (normalized_speed ?b) (motors s1 ! motor_id ?b)])"
    by auto
  from assms have i: "motor_id ?b < length (motors s)"
    using motor_id_less [of "packet s"] by (simp add: state_ok_def)
  with s1(5) s2(4) have same: "motors s2 = motors s1"
    by (simp add: drive_idem)
  from s1(2) have len: "length (motors s1) = 4"
    by (simp add: state_ok_def)
  have hw: "if is_extension ?b then motors s1 = motors s
      else
        level (dir (motors s1 ! motor_id ?b)) =
          (if negative ?b \<noteq> 0 then reverse_level else forward_level) \<and>
        duty (pwm (motors s1 ! motor_id ?b)) = real (speed ?b) / 31 \<and>
        (\<forall>j. j \<noteq> motor_id ?b \<longrightarrow> motors s1 ! j = motors s ! j)"
  proof (cases "is_extension ?b")
    case True
    with s1(5) show ?thesis by simp
  next
    case False
    from False s1(5) i have "motors s1 ! motor_id ?b =
        drive (normalized_speed ?b) (motors s ! motor_id ?b)"
      by simp
    with drive_packet_outputs [OF False] False s1(5) show ?thesis
      by simp
  qed
  from s1(1,3,4,5) s2 same len hw show ?thesis
    by blast
qed

theorem no_byte_holds_last_command_witness:
  "state_ok (main_init \<lparr>as_byte = 0x41\<rparr>) \<and>
   (\<exists>s1 s2. iteration None (\<lambda>_. 0x1234) (main_init \<lparr>as_byte = 0x41\<rparr>) = Inr s1 \<and>
      iteration None (\<lambda>_. 0) s1 = Inr s2 \<and>
      packet s1 = \<lparr>as_byte = 0x41\<rparr> \<and> packet s2 = \<lparr>as_byte = 0x41\<rparr> \<and>
      drive_calls s1 = [(1, 8 / 31)] \<and> drive_calls s2 = [(1, 8 / 31), (1, 8 / 31)] \<and>
      motors s1 = [Motor_new p21 p11, drive (8 / 31) (Motor_new p22 p12), Motor_new p23 p13,
                   Motor_new p24 p14] \<and>
      level (dir (motors s1 ! 1)) = forward_level \<and> duty (pwm (motors s1 ! 1)) = 8 / 31 \<and>
      motors s1 \<noteq> motors (main_init \<lparr>as_byte = 0x41\<rparr>) \<and>
      motors s2 = motors s1)"
proof -
  let ?s = "main_init \<lparr>as_byte = 0x41\<rparr>"
  have ok: "state_ok ?s"
    by (rule state_ok_main_init)
  have b: "MotorPacket_b \<lparr>as_byte = 0x41\<rparr> = \<lparr>motor_id = 1, negative = 0, speed = 8\<rparr>"
    using decode_0x41 by (simp add: decode_def)
  have p: "packet ?s = \<lparr>as_byte = 0x41\<rparr>" "drive_calls ?s = []"
    "motors ?s = [Motor_new p21 p11, Motor_new p22 p12, Motor_new p23 p13, Motor_new p24 p14]"
    by (simp_all add: main_init_def)
  have d: "drive (8 / 31) (Motor_new p22 p12) \<noteq> Motor_new p22 p12"
    by (simp add: drive_def Motor_new_def Motor_init_def PwmOut_new_def DigitalOut_new_def hw_defs)
  from no_byte_holds_last_command [OF ok, of "\<lambda>_. 0x1234" "\<lambda>_. 0"] obtain s1 s2 where
    r: "iteration None (\<lambda>_. 0x1234) ?s = Inr s1" "iteration None (\<lambda>_. 0) s1 = Inr s2"
      "packet s1 = \<lparr>as_byte = 0x41\<rparr>" "packet s2 = \<lparr>as_byte = 0x41\<rparr>"
      "drive_calls s1 = [(1, 8 / 31)]" "drive_calls s2 = [(1, 8 / 31), (1, 8 / 31)]"
      "motors s1 = [Motor_new p21 p11, drive (8 / 31) (Motor_new p22 p12), Motor_new p23 p13,
                   Motor_new p24 p14]"
      "level (dir (motors s1 ! 1)) = forward_level" "duty (pwm (motors s1 ! 1)) = 8 / 31"
      "motors s2 = motors s1"
    by (simp add: p b is_extension_def normalized_speed_def) fastforce
  from r(7) p(3) d have "motors s1 \<noteq> motors ?s"
    by simp
  with ok r show ?thesis
    by blast
qed

end
